theory Spec2Isabelle
  imports Complex_Main "HOL-Library.List_Lexorder" "HOL-Library.Char_ord" "HOL-Library.AList"
begin

section \<open>Python values and exceptions\<close>

text \<open>
  The classes of the exceptions that the modelled code raises or catches. A callee that
  is a parameter of the model (a subclass hook, a function of another module) reports a
  failure by the class of the exception alone.
\<close>

datatype exn_class =
  ValueError | TypeError | IndexError | NotImplementedError | InvalidArgumentError

text \<open>
  Nested structures, as \<^verbatim>\<open>tf.nest\<close> sees them: \<^verbatim>\<open>None\<close> and every other
  non-container object are atoms; lists, tuples and named tuples are sequences; a
  \<^verbatim>\<open>dict\<close> and a \<^verbatim>\<open>collections.OrderedDict\<close> map strings to structures. The same
  type describes a structure of values and a structure of dtypes (the model's
  \<^verbatim>\<open>dtype\<close>), with the atoms' type as parameter.
\<close>

datatype 'a nest =
    PyNone
  | Leaf 'a
  | Seq "'a nest list"
  | Dict "(string \<times> 'a nest) list"
  | OrderedDict "(string \<times> 'a nest) list"

text \<open>Keyword arguments: a Python \<^verbatim>\<open>dict\<close> in insertion order.\<close>

type_synonym 'a kwargs = "(string \<times> 'a nest) list"

text \<open>
  The failures of the modelled functions. The first four are the \<^verbatim>\<open>ValueError\<close>s
  that \<^verbatim>\<open>joint_distribution.py\<close> raises itself, with the values its messages are
  formatted from; \<open>NotImplemented\<close> is the \<^verbatim>\<open>NotImplementedError\<close> of
  \<^verbatim>\<open>distribution.py\<close> with the capability named in its message; \<open>Raised c\<close> is an
  exception of class \<open>c\<close> that passes through from a callee or from a Python builtin
  (\<^verbatim>\<open>len\<close>, indexing).
\<close>

datatype 'a error =
    CountError nat "string list" int "'a nest list" "'a kwargs"
  | UnorderedError "'a nest list"
  | NonePartError "'a nest"
  | BroadcastError
  | NotImplemented string
  | Raised exn_class

section \<open>The part of \<^verbatim>\<open>tf.nest\<close> that the resolver uses\<close>

fun is_nested :: "'a nest \<Rightarrow> bool" where
  "is_nested (Seq xs) = True"
| "is_nested (Dict kvs) = True"
| "is_nested (OrderedDict kvs) = True"
| "is_nested _ = False"

text \<open>
  The children of a container, in the order in which \<^verbatim>\<open>tf.nest\<close> visits them: a
  sequence in its own order, a mapping by sorted key.
\<close>

fun yield_value :: "'a nest \<Rightarrow> 'a nest list" where
  "yield_value (Seq xs) = xs"
| "yield_value (Dict kvs) = map snd (sort_key fst kvs)"
| "yield_value (OrderedDict kvs) = map snd (sort_key fst kvs)"
| "yield_value _ = []"

lemma size_yield_value: "c \<in> set (yield_value t) \<Longrightarrow> size c < size t"
proof (cases t)
  case (Seq xs)
  moreover have "c \<in> set xs \<Longrightarrow> size c < Suc (size_list size xs)"
    by (induction xs) auto
  ultimately show "c \<in> set (yield_value t) \<Longrightarrow> size c < size t"
    by simp
next
  case (Dict kvs)
  moreover have "(k, c) \<in> set kvs \<Longrightarrow> size c < Suc (size_list (size_prod (\<lambda>x. 0) size) kvs)"
    for k by (induction kvs) auto
  ultimately show "c \<in> set (yield_value t) \<Longrightarrow> size c < size t"
    by auto
next
  case (OrderedDict kvs)
  moreover have "(k, c) \<in> set kvs \<Longrightarrow> size c < Suc (size_list (size_prod (\<lambda>x. 0) size) kvs)"
    for k by (induction kvs) auto
  ultimately show "c \<in> set (yield_value t) \<Longrightarrow> size c < size t"
    by auto
qed auto

text \<open>\<^verbatim>\<open>tf.nest.flatten\<close>: the atoms of a structure, \<^verbatim>\<open>None\<close> included, left to right.\<close>

function nest_flatten :: "'a nest \<Rightarrow> 'a nest list" where
  "nest_flatten t = (if is_nested t then concat (map nest_flatten (yield_value t)) else [t])"
  by pat_completeness auto
termination
  by (relation "measure size") (auto simp: size_yield_value)

declare nest_flatten.simps [simp del]

text \<open>
  \<^verbatim>\<open>tf.nest.assert_same_structure(nest1, nest2, check_types=False)\<close>: a
  \<^verbatim>\<open>ValueError\<close> when one side is a container and the other is not, or when two
  containers differ in their number of children; the types of the containers and the
  keys of mappings are compared only with \<^verbatim>\<open>check_types=True\<close>.
\<close>

function assert_same_structure :: "'d nest \<Rightarrow> 'a nest \<Rightarrow> exn_class + unit" where
  "assert_same_structure nest1 nest2 =
     (if is_nested nest1 \<noteq> is_nested nest2 then Inl ValueError
      else if \<not> is_nested nest1 then Inr ()
      else if length (yield_value nest1) \<noteq> length (yield_value nest2) then Inl ValueError
      else if list_all (\<lambda>(v1, v2). assert_same_structure v1 v2 = Inr ())
                (zip (yield_value nest1) (yield_value nest2))
      then Inr () else Inl ValueError)"
  by pat_completeness auto
termination
  by (relation "measure (\<lambda>(nest1, nest2). size nest1)")
     (auto simp: size_yield_value dest!: set_zip_leftD)

declare assert_same_structure.simps [simp del]

section \<open>Resolving a value from the arguments of a call\<close>

text \<open>\<^verbatim>\<open>len(dtype)\<close>: a \<^verbatim>\<open>TypeError\<close> on an object without a length.\<close>

fun py_len :: "'d nest \<Rightarrow> exn_class + nat" where
  "py_len (Seq xs) = Inr (length xs)"
| "py_len (Dict kvs) = Inr (length kvs)"
| "py_len (OrderedDict kvs) = Inr (length kvs)"
| "py_len _ = Inl TypeError"

text \<open>\<^verbatim>\<open>isinstance(dtype, dict) and not isinstance(dtype, collections.OrderedDict)\<close>\<close>

fun is_unordered_dict :: "'d nest \<Rightarrow> bool" where
  "is_unordered_dict (Dict kvs) = True"
| "is_unordered_dict _ = False"

text \<open>\<^verbatim>\<open>kwargs.pop(key, None)\<close>: the value removed (\<^verbatim>\<open>None\<close> without the key) and the rest.\<close>

definition kwargs_pop :: "string \<Rightarrow> 'a kwargs \<Rightarrow> 'a nest \<times> 'a kwargs" where
  "kwargs_pop key kwargs =
     (case map_of kwargs key of None \<Rightarrow> PyNone | Some v \<Rightarrow> v,
      filter (\<lambda>(k, v). k \<noteq> key) kwargs)"

text \<open>
  One element of the generator
  \<^verbatim>\<open>kwargs[k] if k in kwargs else args[i] for i, k in enumerate(flat_names)\<close>;
  \<^verbatim>\<open>args[i]\<close> raises \<^verbatim>\<open>IndexError\<close> beyond the positional arguments.
\<close>

definition component_value ::
  "'a nest list \<Rightarrow> 'a kwargs \<Rightarrow> nat \<times> string \<Rightarrow> exn_class + 'a nest" where
  "component_value args kwargs ik =
     (case ik of (i, k) \<Rightarrow>
        (case map_of kwargs k of
           Some v \<Rightarrow> Inr v
         | None \<Rightarrow> if i < length args then Inr (args ! i) else Inl IndexError))"

text \<open>
  Running a generator to its end: the list of its elements, or the first exception.
  (\<^verbatim>\<open>model_unflatten_fn\<close> is taken to consume its whole argument.)
\<close>

fun collect :: "('e + 'b) list \<Rightarrow> 'e + 'b list" where
  "collect [] = Inr []"
| "collect (x # xs) =
     (case x of
        Inl e \<Rightarrow> Inl e
      | Inr v \<Rightarrow> (case collect xs of Inl e \<Rightarrow> Inl e | Inr vs \<Rightarrow> Inr (v # vs)))"

text \<open>\<^verbatim>\<open>except (ValueError, TypeError)\<close>\<close>

definition caught :: "exn_class \<Rightarrow> bool" where
  "caught c = (c = ValueError \<or> c = TypeError)"

text \<open>
  \<^verbatim>\<open>_resolve_value_from_args\<close>. The two model functions are parameters; each returns
  its result or the class of the exception it raises. The result is the pair of the
  value and the unmatched keyword arguments.
\<close>

definition resolve_value_from_args ::
  "'a nest list \<Rightarrow> 'a kwargs \<Rightarrow> 'd nest \<Rightarrow> string list \<Rightarrow>
   ('d nest \<Rightarrow> exn_class + 'd nest list) \<Rightarrow> ('a nest list \<Rightarrow> exn_class + 'a nest) \<Rightarrow>
   'a error + ('a nest \<times> 'a kwargs)" where
  "resolve_value_from_args args kwargs0 dtype flat_names model_flatten_fn model_unflatten_fn =
     (case kwargs_pop ''value'' kwargs0 of (value, kwargs) \<Rightarrow>
      if value \<noteq> PyNone then Inr (value, kwargs)
      else
        let matched_kwargs = filter (\<lambda>k. map_of kwargs k \<noteq> None) flat_names;
            unmatched_kwargs = filter (\<lambda>(k, v). k \<notin> set matched_kwargs) kwargs
        in
        if length args = 1 \<and> matched_kwargs = [] then
          (case py_len dtype of
             Inl c \<Rightarrow> Inl (Raised c)
           | Inr n \<Rightarrow>
               if n > 1 then Inr (args ! 0, unmatched_kwargs)
               else
                 (case model_flatten_fn dtype of
                    Inl c \<Rightarrow> Inl (Raised c)
                  | Inr [] \<Rightarrow> Inl (Raised IndexError)
                  | Inr (first_component_dtype # _) \<Rightarrow>
                      (case assert_same_structure first_component_dtype (args ! 0) of
                         Inl c \<Rightarrow>
                           if caught c then Inr (args ! 0, unmatched_kwargs) else Inl (Raised c)
                       | Inr _ \<Rightarrow>
                           (case model_unflatten_fn args of
                              Inl c \<Rightarrow>
                                if caught c then Inr (args ! 0, unmatched_kwargs)
                                else Inl (Raised c)
                            | Inr v \<Rightarrow> Inr (v, unmatched_kwargs)))))
        else
          let num_components_specified =
                int (length args) + int (length kwargs) - int (length unmatched_kwargs)
          in
          if num_components_specified \<noteq> int (length flat_names) then
            Inl (CountError (length flat_names) flat_names num_components_specified args kwargs)
          else if args \<noteq> [] \<and> is_unordered_dict dtype then Inl (UnorderedError args)
          else
            (case collect (map (component_value args kwargs) (enumerate 0 flat_names)) of
               Inl c \<Rightarrow> Inl (Raised c)
             | Inr vs \<Rightarrow>
                 (case model_unflatten_fn vs of
                    Inl c \<Rightarrow> Inl (Raised c)
                  | Inr v \<Rightarrow> Inr (v, unmatched_kwargs))))"

text \<open>
  Modelled from the spec: the flatten and unflatten functions of a joint model that is
  declared as a list (the class of the sequential models is not among the sources). The
  spec writes the value structures of such a model as lists, \<^verbatim>\<open>[1., 2., 3.]\<close>, and asks
  the pair to be a round trip: the flat sequence is the list itself.
\<close>

definition list_model_flatten :: "'d nest \<Rightarrow> exn_class + 'd nest list" where
  "list_model_flatten t = (case t of Seq xs \<Rightarrow> Inr xs | _ \<Rightarrow> Inl TypeError)"

definition list_model_unflatten :: "'a nest list \<Rightarrow> exn_class + 'a nest" where
  "list_model_unflatten xs = Inr (Seq xs)"

text \<open>The dtype of a scalar component.\<close>

definition f32 :: "string nest" where
  "f32 = Leaf ''float32''"

text \<open>
  The spec's words for the last step of the resolver, to compare the code with: walk
  the declared names in order, take a component from the keywords if its name is there,
  else take the next unused positional argument. The words do not say what happens
  when the positional arguments run out; the walk has no result then.
\<close>

fun spec_walk_next_unused ::
  "string list \<Rightarrow> 'a nest list \<Rightarrow> 'a kwargs \<Rightarrow> 'a nest list option" where
  "spec_walk_next_unused [] args kwargs = Some []"
| "spec_walk_next_unused (k # ks) args kwargs =
     (case map_of kwargs k of
        Some v \<Rightarrow> map_option (Cons v) (spec_walk_next_unused ks args kwargs)
      | None \<Rightarrow>
          (case args of
             [] \<Rightarrow> None
           | a # rest \<Rightarrow> map_option (Cons a) (spec_walk_next_unused ks rest kwargs)))"

text \<open>
  What the code takes for the component \<open>k\<close> at position \<open>i\<close> of the declared names when
  nothing fails, and the condition under which nothing fails: every component that no
  keyword names has a positional argument at its own position.
\<close>

definition by_index :: "'a nest list \<Rightarrow> 'a kwargs \<Rightarrow> nat \<times> string \<Rightarrow> 'a nest" where
  "by_index args kwargs ik =
     (case ik of (i, k) \<Rightarrow> (case map_of kwargs k of Some v \<Rightarrow> v | None \<Rightarrow> args ! i))"

definition positional_available :: "'a nest list \<Rightarrow> 'a kwargs \<Rightarrow> string list \<Rightarrow> bool" where
  "positional_available args kwargs flat_names =
     list_all (\<lambda>(i, k). map_of kwargs k = None \<longrightarrow> i < length args) (enumerate 0 flat_names)"

section \<open>Tensors\<close>

text \<open>
  What \<^verbatim>\<open>prefer_static.shape\<close> returns for a tensor: a NumPy array of the dimensions
  when the shape is known statically, and otherwise a tensor, which stays opaque.
\<close>

datatype 's shape_value = Static "nat list" | Dynamic 's

text \<open>
  Tensors are opaque: the model is parametric in their type \<open>'a\<close> and in the operations
  of the numerical backend that the modelled code calls. \<open>tf_add\<close> is the addition that
  Python's \<^verbatim>\<open>sum\<close> applies and \<open>tf_zero\<close> the integer \<^verbatim>\<open>0\<close> it starts from; \<open>shape\<close> is
  \<^verbatim>\<open>prefer_static.shape\<close>; \<open>assert_equal a b\<close> tells whether the assertion
  \<^verbatim>\<open>assert_util.assert_equal(a, b)\<close> on two shapes that are not both static holds.
\<close>

record ('a, 's) backend =
  tf_exp :: "'a \<Rightarrow> 'a"
  tf_log :: "'a \<Rightarrow> 'a"
  tf_add :: "'a \<Rightarrow> 'a \<Rightarrow> 'a"
  tf_zero :: 'a
  tf_identity :: "'a \<Rightarrow> 'a"
  shape :: "'a \<Rightarrow> 's shape_value"
  assert_equal :: "'s shape_value \<Rightarrow> 's shape_value \<Rightarrow> bool"

text \<open>\<^verbatim>\<open>prefer_static.is_numpy\<close>\<close>

fun is_numpy :: "'s shape_value \<Rightarrow> bool" where
  "is_numpy (Static dims) = True"
| "is_numpy (Dynamic t) = False"

text \<open>
  \<^verbatim>\<open>np.all(a == b)\<close> for two arrays of dimensions. NumPy's \<^verbatim>\<open>==\<close> compares element by
  element and broadcasts: arrays of the same length are compared position by position,
  an array of length one is compared with every element of the other, and the
  comparison of two arrays that cannot be broadcast is not true (it is \<^verbatim>\<open>False\<close> with a
  warning, or an error, depending on the version). \<^verbatim>\<open>np.all\<close> of an empty array is
  \<^verbatim>\<open>True\<close>. The code calls it on NumPy arrays only.
\<close>

fun np_all_equal :: "'s shape_value \<Rightarrow> 's shape_value \<Rightarrow> bool" where
  "np_all_equal (Static a) (Static b) =
     (if length a = length b then list_all (\<lambda>(x, y). x = y) (zip a b)
      else if length a = 1 then list_all (\<lambda>y. a ! 0 = y) b
      else if length b = 1 then list_all (\<lambda>x. x = b ! 0) a
      else False)"
| "np_all_equal _ _ = False"

section \<open>The measure wrappers of \<^verbatim>\<open>Distribution\<close>\<close>

text \<open>
  A distribution, as far as \<^verbatim>\<open>_call_log_prob\<close> and \<^verbatim>\<open>_call_prob\<close> look at it: the name
  of its class, and the private primitives \<^verbatim>\<open>_log_prob\<close> and \<^verbatim>\<open>_prob\<close>, each present
  or not (\<^verbatim>\<open>hasattr\<close>). A primitive takes the value and the forwarded keyword
  arguments. \<open>cast_and_convert\<close> stands for the two conversions that both wrappers
  apply to the value first, \<^verbatim>\<open>_cast_structure(value, self.dtype)\<close> and then
  \<^verbatim>\<open>nest_util.convert_to_nested_tensor\<close> (a module that is not among the sources);
  either may raise. Entering \<^verbatim>\<open>_name_and_control_scope\<close> names the operations and
  attaches the assertions of the distribution to them; it does not change the value
  that is computed and is left out.
\<close>

record 'a distribution =
  class_name :: string
  cast_and_convert :: "'a nest \<Rightarrow> exn_class + 'a nest"
  log_prob_primitive :: "('a nest \<Rightarrow> 'a kwargs \<Rightarrow> 'a error + 'a) option"
  prob_primitive :: "('a nest \<Rightarrow> 'a kwargs \<Rightarrow> 'a error + 'a) option"

definition call_log_prob ::
  "('a, 's) backend \<Rightarrow> 'a distribution \<Rightarrow> 'a nest \<Rightarrow> string \<Rightarrow> 'a kwargs \<Rightarrow> 'a error + 'a" where
  "call_log_prob B self value name kwargs =
     (case cast_and_convert self value of
        Inl c \<Rightarrow> Inl (Raised c)
      | Inr value' \<Rightarrow>
          (case log_prob_primitive self of
             Some log_prob' \<Rightarrow> log_prob' value' kwargs
           | None \<Rightarrow>
               (case prob_primitive self of
                  Some prob' \<Rightarrow> map_sum id (tf_log B) (prob' value' kwargs)
                | None \<Rightarrow> Inl (NotImplemented (''log_prob is not implemented: '' @ class_name self)))))"

definition call_prob ::
  "('a, 's) backend \<Rightarrow> 'a distribution \<Rightarrow> 'a nest \<Rightarrow> string \<Rightarrow> 'a kwargs \<Rightarrow> 'a error + 'a" where
  "call_prob B self value name kwargs =
     (case cast_and_convert self value of
        Inl c \<Rightarrow> Inl (Raised c)
      | Inr value' \<Rightarrow>
          (case prob_primitive self of
             Some prob' \<Rightarrow> prob' value' kwargs
           | None \<Rightarrow>
               (case log_prob_primitive self of
                  Some log_prob' \<Rightarrow> map_sum id (tf_exp B) (log_prob' value' kwargs)
                | None \<Rightarrow> Inl (NotImplemented (''prob is not implemented: '' @ class_name self)))))"

text \<open>The public methods, with their default names and no further keyword.\<close>

definition log_prob :: "('a, 's) backend \<Rightarrow> 'a distribution \<Rightarrow> 'a nest \<Rightarrow> 'a error + 'a" where
  "log_prob B self value = call_log_prob B self value ''log_prob'' []"

definition prob :: "('a, 's) backend \<Rightarrow> 'a distribution \<Rightarrow> 'a nest \<Rightarrow> 'a error + 'a" where
  "prob B self value = call_prob B self value ''prob'' []"

section \<open>The measures of \<^verbatim>\<open>JointDistribution\<close>\<close>

text \<open>\<^verbatim>\<open>getattr(d, attr)(x)\<close> for the two attributes that the measures map over the components.\<close>

datatype measure = LogProb | Prob

fun measure_of :: "('a, 's) backend \<Rightarrow> measure \<Rightarrow> 'a distribution \<Rightarrow> 'a nest \<Rightarrow> 'a error + 'a" where
  "measure_of B LogProb d x = log_prob B d x"
| "measure_of B Prob d x = prob B d x"

text \<open>
  A joint distribution: its class name, \<^verbatim>\<open>validate_args\<close>, the conversions of
  \<^verbatim>\<open>_call_log_prob\<close> as above, and the three methods that every kind of joint model
  supplies. \<open>flat_sample_distributions\<close> is \<^verbatim>\<open>_flat_sample_distributions\<close> at the
  sample shape \<^verbatim>\<open>()\<close> and the dummy seed with which the measures call it; its
  argument is the flattened value, or \<open>None\<close>.
\<close>

record 'a joint_distribution =
  jd_class_name :: string
  validate_args :: bool
  jd_cast_and_convert :: "'a nest \<Rightarrow> exn_class + 'a nest"
  model_flatten :: "'a nest \<Rightarrow> exn_class + 'a nest list"
  model_unflatten :: "'a nest list \<Rightarrow> exn_class + 'a nest"
  flat_sample_distributions ::
    "'a nest list option \<Rightarrow> exn_class + ('a distribution list \<times> 'a nest list)"

text \<open>\<^verbatim>\<open>_call_flat_sample_distributions(value=value, seed=dummy_seed())\<close>, without keywords.\<close>

definition call_flat_sample_distributions ::
  "'a joint_distribution \<Rightarrow> 'a nest \<Rightarrow> 'a error + ('a distribution list \<times> 'a nest list)" where
  "call_flat_sample_distributions self value =
     (case (if value \<noteq> PyNone then map_sum id Some (model_flatten self value) else Inr None) of
        Inl c \<Rightarrow> Inl (Raised c)
      | Inr flat_value \<Rightarrow>
          (case flat_sample_distributions self flat_value of
             Inl c \<Rightarrow> Inl (Raised c)
           | Inr (ds, xs) \<Rightarrow> Inr (ds, xs)))"

text \<open>
  \<^verbatim>\<open>_map_measure_over_dists\<close>. The result is a generator: its elements are computed, and
  may raise, only when it is consumed.
\<close>

definition map_measure_over_dists ::
  "('a, 's) backend \<Rightarrow> 'a joint_distribution \<Rightarrow> measure \<Rightarrow> 'a nest \<Rightarrow>
   'a error + ('a error + 'a) list" where
  "map_measure_over_dists B self attr value =
     (if list_ex (\<lambda>x. x = PyNone) (nest_flatten value) then Inl (NonePartError value)
      else
        (case call_flat_sample_distributions self value of
           Inl e \<Rightarrow> Inl e
         | Inr (ds, xs) \<Rightarrow> Inr (map (\<lambda>(d, x). measure_of B attr d x) (zip ds xs))))"

text \<open>
  \<^verbatim>\<open>maybe_check_wont_broadcast\<close>. \<^verbatim>\<open>tuple(flat_xs)\<close> runs the generator; \<^verbatim>\<open>s[1:]\<close> and
  \<^verbatim>\<open>s[:-1]\<close> are \<open>tl s\<close> and \<open>butlast s\<close>. With shapes that are not all static the
  function adds assertions to the graph; an assertion that does not hold makes the
  computation fail with an \<^verbatim>\<open>InvalidArgumentError\<close>.
\<close>

definition maybe_check_wont_broadcast ::
  "('a, 's) backend \<Rightarrow> ('a error + 'a) list \<Rightarrow> bool \<Rightarrow> 'a error + 'a list" where
  "maybe_check_wont_broadcast B flat_xs0 validate =
     (case collect flat_xs0 of
        Inl e \<Rightarrow> Inl e
      | Inr flat_xs \<Rightarrow>
          if \<not> validate then Inr flat_xs
          else
            let s = map (shape B) flat_xs in
            if list_all is_numpy s then
              (if \<not> list_all (\<lambda>(a, b). np_all_equal a b) (zip (tl s) (butlast s))
               then Inl BroadcastError
               else Inr flat_xs)
            else if list_all (\<lambda>(a, b). assert_equal B a b) (zip (tl s) (butlast s))
            then Inr (map (tf_identity B) flat_xs)
            else Inl (Raised InvalidArgumentError))"

text \<open>Python's \<^verbatim>\<open>sum\<close>: \<^verbatim>\<open>0 + x1 + ... + xn\<close>, from the left.\<close>

definition py_sum :: "('a, 's) backend \<Rightarrow> 'a list \<Rightarrow> 'a" where
  "py_sum B xs = foldl (tf_add B) (tf_zero B) xs"

text \<open>\<^verbatim>\<open>JointDistribution._log_prob\<close>, \<^verbatim>\<open>log_prob_parts\<close> and \<^verbatim>\<open>prob_parts\<close>.\<close>

definition jd_log_prob :: "('a, 's) backend \<Rightarrow> 'a joint_distribution \<Rightarrow> 'a nest \<Rightarrow> 'a error + 'a" where
  "jd_log_prob B self value =
     (case map_measure_over_dists B self LogProb value of
        Inl e \<Rightarrow> Inl e
      | Inr xs \<Rightarrow> map_sum id (py_sum B) (maybe_check_wont_broadcast B xs (validate_args self)))"

definition log_prob_parts ::
  "('a, 's) backend \<Rightarrow> 'a joint_distribution \<Rightarrow> 'a nest \<Rightarrow> 'a error + 'a nest" where
  "log_prob_parts B self value =
     (case map_measure_over_dists B self LogProb value of
        Inl e \<Rightarrow> Inl e
      | Inr xs \<Rightarrow>
          (case maybe_check_wont_broadcast B xs (validate_args self) of
             Inl e \<Rightarrow> Inl e
           | Inr ys \<Rightarrow>
               (case model_unflatten self (map Leaf ys) of
                  Inl c \<Rightarrow> Inl (Raised c)
                | Inr v \<Rightarrow> Inr v)))"





section \<open>Example models\<close>

text \<open>
  A backend whose tensors are real numbers of static scalar shape, and three
  distributions (with \<^verbatim>\<open>_log_prob\<close> only, with \<^verbatim>\<open>_prob\<close> only, with neither).
\<close>

definition real_backend :: "(real, unit) backend" where
  "real_backend =
     \<lparr> tf_exp = exp, tf_log = ln, tf_add = (+), tf_zero = 0, tf_identity = id,
       shape = (\<lambda>x. Static []), assert_equal = (=) \<rparr>"

definition only_log_prob :: "real distribution" where
  "only_log_prob =
     \<lparr> class_name = ''OnlyLogProb'', cast_and_convert = Inr,
       log_prob_primitive =
         Some (\<lambda>value kwargs. case value of Leaf x \<Rightarrow> Inr (- (x * x)) | _ \<Rightarrow> Inl (Raised TypeError)),
       prob_primitive = None \<rparr>"

definition only_prob :: "real distribution" where
  "only_prob =
     \<lparr> class_name = ''OnlyProb'', cast_and_convert = Inr,
       log_prob_primitive = None,
       prob_primitive =
         Some (\<lambda>value kwargs. case value of Leaf x \<Rightarrow> Inr (x * x + 1) | _ \<Rightarrow> Inl (Raised TypeError)) \<rparr>"

definition no_primitive :: "real distribution" where
  "no_primitive =
     \<lparr> class_name = ''NoPrimitive'', cast_and_convert = Inr,
       log_prob_primitive = None, prob_primitive = None \<rparr>"

text \<open>
  The conversions of \<^verbatim>\<open>_call_log_prob\<close> for a joint model that is declared as a list, on
  the values of the examples. \<^verbatim>\<open>_cast_structure\<close> builds \<^verbatim>\<open>list(value)\<close>: a list is
  rebuilt, and \<^verbatim>\<open>None\<close> and a number cannot be iterated, a \<^verbatim>\<open>TypeError\<close>. The parts of
  the list are then converted by \<^verbatim>\<open>tf.convert_to_tensor\<close>, which raises a \<^verbatim>\<open>ValueError\<close>
  on \<^verbatim>\<open>None\<close> and leaves a number as it is. (A \<^verbatim>\<open>dict\<close>, of which \<^verbatim>\<open>list\<close> would keep
  the keys, is not a value of the examples; it is made a \<^verbatim>\<open>TypeError\<close> too.)
\<close>

definition list_model_cast_and_convert :: "'a nest \<Rightarrow> exn_class + 'a nest" where
  "list_model_cast_and_convert value =
     (case value of
        Seq xs \<Rightarrow>
          if list_ex (\<lambda>x. x = PyNone) (nest_flatten (Seq xs)) then Inl ValueError
          else Inr (Seq xs)
      | _ \<Rightarrow> Inl TypeError)"


text \<open>
  Tensors with a shape: a tensor of a static shape, filled with one number. Adding two
  of them adds the numbers and broadcasts the shapes, which are aligned at their last
  dimension (the shapes of the example have no dimension 0).
\<close>

definition broadcast_shape :: "nat list \<Rightarrow> nat list \<Rightarrow> nat list" where
  "broadcast_shape s t =
     (let n = max (length s) (length t)
      in map (\<lambda>(a, b). max a b)
           (zip (replicate (n - length s) 1 @ s) (replicate (n - length t) 1 @ t)))"

definition filled_backend :: "(nat list \<times> real, unit) backend" where
  "filled_backend =
     \<lparr> tf_exp = (\<lambda>(s, x). (s, exp x)), tf_log = (\<lambda>(s, x). (s, ln x)),
       tf_add = (\<lambda>(s, x) (t, y). (broadcast_shape s t, x + y)), tf_zero = ([], 0),
       tf_identity = id, shape = (\<lambda>(s, x). Static s), assert_equal = (=) \<rparr>"

text \<open>
  A distribution of the batch shape \<open>batch\<close>: its \<^verbatim>\<open>log_prob\<close> at a scalar has that
  shape. A joint model with \<^verbatim>\<open>validate_args=True\<close> of a component of scalar batch shape
  and a component of batch shape \<^verbatim>\<open>[3]\<close>.
\<close>

definition batch_of :: "nat list \<Rightarrow> (nat list \<times> real) distribution" where
  "batch_of batch =
     \<lparr> class_name = ''Batch'', cast_and_convert = Inr,
       log_prob_primitive =
         Some (\<lambda>value kwargs. case value of
                 Leaf (s, x) \<Rightarrow> Inr (broadcast_shape batch s, - (x * x))
               | _ \<Rightarrow> Inl (Raised TypeError)),
       prob_primitive = None \<rparr>"

definition scalar_and_vector :: "(nat list \<times> real) joint_distribution" where
  "scalar_and_vector =
     \<lparr> jd_class_name = ''JointDistributionSequential'', validate_args = True,
       jd_cast_and_convert = list_model_cast_and_convert,
       model_flatten = list_model_flatten, model_unflatten = list_model_unflatten,
       flat_sample_distributions =
         (\<lambda>value. case value of
                     Some xs \<Rightarrow> Inr ([batch_of [], batch_of [3]], xs)
                   | None \<Rightarrow> Inl NotImplementedError) \<rparr>"

section \<open>The parameters of a \<^verbatim>\<open>Distribution\<close> and \<^verbatim>\<open>copy\<close>\<close>

text \<open>
  A value of a constructor argument is a reference to a distribution instance, which
  \<^verbatim>\<open>v is not self\<close> compares by identity, or any other value.
\<close>

datatype 'v pyval = Obj nat | Val 'v

type_synonym 'v pdict = "(string \<times> 'v pyval) list"

text \<open>
  The attribute \<^verbatim>\<open>self._parameters\<close> after construction: a reference to a \<^verbatim>\<open>dict\<close>
  object, or the callable that the metaclass installs when the subclass passed no
  parameters, which returns the \<^verbatim>\<open>dict\<close> of the call arguments.
\<close>

datatype 'v params_attr = DictAt nat | Callable "'v pdict"

text \<open>
  The attributes of an instance that \<^verbatim>\<open>parameters\<close> and \<^verbatim>\<open>copy\<close> read and write: its
  identity, \<^verbatim>\<open>_parameters\<close>, \<^verbatim>\<open>_parameters_sanitized\<close> (\<open>None\<close> when the attribute
  does not exist), and the provenance that slicing records: the identity of the
  instance that this one derives from, if any.
\<close>

record 'v dist_instance =
  ident :: nat
  params_attr :: "'v params_attr"
  params_sanitized :: "bool option"
  provenance :: "nat option"

text \<open>
  \<^verbatim>\<open>dict\<close> objects are mutable and shared by reference, so they live in a store: the
  contents of every address, and the next address to allocate.
\<close>

record 'v store =
  cells :: "nat \<Rightarrow> 'v pdict"
  next_addr :: nat

definition new_dict :: "'v pdict \<Rightarrow> 'v store \<Rightarrow> nat \<times> 'v store" where
  "new_dict d h = (next_addr h, h\<lparr>cells := (cells h)(next_addr h := d), next_addr := Suc (next_addr h)\<rparr>)"

text \<open>\<^verbatim>\<open>k.startswith('__')\<close>\<close>

definition startswith_dunder :: "string \<Rightarrow> bool" where
  "startswith_dunder k = (take 2 k = ''__'')"

text \<open>
  The property \<^verbatim>\<open>parameters\<close>: the address of the \<^verbatim>\<open>dict\<close> it returns, the instance and
  the store after the call. \<^verbatim>\<open>_no_dependency\<close> only keeps the object out of the
  attribute tracking of \<^verbatim>\<open>tf.Module\<close>. \<^verbatim>\<open>dict(f)\<close> of a callable is a \<^verbatim>\<open>TypeError\<close>.
\<close>

definition parameters ::
  "'v dist_instance \<Rightarrow> 'v store \<Rightarrow> exn_class + (nat \<times> 'v dist_instance \<times> 'v store)" where
  "parameters self h =
     (case (if params_sanitized self = Some True then (self, h)
            else
              let p = (case params_attr self of Callable d \<Rightarrow> d | DictAt a \<Rightarrow> cells h a)
              in case new_dict (filter (\<lambda>(k, v). \<not> startswith_dunder k \<and> v \<noteq> Obj (ident self)) p) h
                 of (a', h') \<Rightarrow> (self\<lparr>params_attr := DictAt a', params_sanitized := Some True\<rparr>, h'))
      of (self1, h1) \<Rightarrow>
        (case params_attr self1 of
           DictAt a \<Rightarrow> (case new_dict (cells h1 a) h1 of (r, h2) \<Rightarrow> Inr (r, self1, h2))
         | Callable d \<Rightarrow> Inl TypeError))"

text \<open>The contents of the \<^verbatim>\<open>dict\<close> that a read of \<^verbatim>\<open>parameters\<close> returns.\<close>

definition read_parameters :: "'v dist_instance \<Rightarrow> 'v store \<Rightarrow> 'v pdict option" where
  "read_parameters self h =
     (case parameters self h of Inl c \<Rightarrow> None | Inr (r, self1, h1) \<Rightarrow> Some (cells h1 r))"

text \<open>A caller that holds the address \<open>r\<close> of a \<^verbatim>\<open>dict\<close> replaces its contents.\<close>

definition caller_mutates :: "nat \<Rightarrow> 'v pdict \<Rightarrow> 'v store \<Rightarrow> 'v store" where
  "caller_mutates r d h = h\<lparr>cells := (cells h)(r := d)\<rparr>"

text \<open>
  The state in which the code keeps an instance: \<^verbatim>\<open>_parameters\<close> refers to an allocated
  \<^verbatim>\<open>dict\<close>, which holds no reference to the instance once the instance is flagged as
  sanitized, or it is the callable and the instance is not flagged.
\<close>

definition params_invariant :: "'v dist_instance \<Rightarrow> 'v store \<Rightarrow> bool" where
  "params_invariant self h =
     (case params_attr self of
        DictAt a \<Rightarrow>
          a < next_addr h
          \<and> (params_sanitized self = Some True \<longrightarrow>
               list_all (\<lambda>(k, v). v \<noteq> Obj (ident self)) (cells h a))
      | Callable d \<Rightarrow> params_sanitized self \<noteq> Some True)"

text \<open>\<^verbatim>\<open>dict(p, **overrides)\<close>: an overridden key keeps its place, a new key goes last.\<close>

definition dict_update :: "'v pdict \<Rightarrow> 'v pdict \<Rightarrow> 'v pdict" where
  "dict_update p overrides = foldl (\<lambda>d (k, v). AList.update k v d) p overrides"

text \<open>
  What \<^verbatim>\<open>copy\<close> needs of the class of an instance: the outcome of
  \<^verbatim>\<open>cls._params_event_ndims()\<close>, which is a \<^verbatim>\<open>NotImplementedError\<close> for a class without
  \<^verbatim>\<open>_parameter_properties\<close>, a class that does not support slicing; and the constructor
  \<^verbatim>\<open>type(self)(**parameters)\<close>, which returns the new instance or raises.
\<close>

record ('v, 'n) dist_class =
  params_event_ndims :: "exn_class + 'n"
  constructor :: "'v pdict \<Rightarrow> exn_class + 'v dist_instance"

text \<open>The instance that a chain of slices and copies started from.\<close>

definition origin :: "'v dist_instance \<Rightarrow> nat" where
  "origin inst = (case provenance inst of Some a \<Rightarrow> a | None \<Rightarrow> ident inst)"

text \<open>
  Modelled from the spec: \<^verbatim>\<open>slicing.batch_slice(inst, params_event_ndims,
  params_overrides, Ellipsis)\<close>; the module \<^verbatim>\<open>slicing\<close> is not among the sources. The spec
  lets \<^verbatim>\<open>copy\<close> "produce a new instance from \<^verbatim>\<open>dict(self.parameters, **overrides)\<close>" and
  prefer the slicing path "so provenance (which original instance a slice/copy derived
  from) is preserved", and asks a copy without overrides to have the parameters of the
  original. The slice \<^verbatim>\<open>Ellipsis\<close> selects every batch member, so no parameter is cut:
  the new instance is constructed from the parameters of \<open>inst\<close> with the overrides, has
  them as its parameters, and records the instance that \<open>inst\<close> derives from. The result
  is the new instance, \<open>inst\<close> after its parameters were read, and the store.
\<close>

definition batch_slice ::
  "('v, 'n) dist_class \<Rightarrow> 'v dist_instance \<Rightarrow> 'n \<Rightarrow> 'v pdict \<Rightarrow> 'v store \<Rightarrow>
   exn_class + ('v dist_instance \<times> 'v dist_instance \<times> 'v store)" where
  "batch_slice cls inst ndims params_overrides h =
     (case parameters inst h of
        Inl c \<Rightarrow> Inl c
      | Inr (p, inst1, h1) \<Rightarrow>
          (case new_dict (dict_update (cells h1 p) params_overrides) h1 of
             (pa, h2) \<Rightarrow>
               (case constructor cls (cells h2 pa) of
                  Inl c \<Rightarrow> Inl c
                | Inr d \<Rightarrow>
                    Inr (d\<lparr>params_attr := DictAt pa, params_sanitized := Some True,
                           provenance := Some (origin inst)\<rparr>,
                         inst1, h2))))"

text \<open>
  The body of the \<^verbatim>\<open>try\<close> of \<^verbatim>\<open>copy\<close>:
  \<^verbatim>\<open>slicing.batch_slice(self, self._params_event_ndims(), override_parameters_kwargs, Ellipsis)\<close>.
\<close>

definition copy_by_slicing ::
  "('v, 'n) dist_class \<Rightarrow> 'v dist_instance \<Rightarrow> 'v pdict \<Rightarrow> 'v store \<Rightarrow>
   exn_class + ('v dist_instance \<times> 'v dist_instance \<times> 'v store)" where
  "copy_by_slicing cls self override_parameters_kwargs h =
     (case params_event_ndims cls of
        Inl c \<Rightarrow> Inl c
      | Inr ndims \<Rightarrow> batch_slice cls self ndims override_parameters_kwargs h)"

text \<open>
  \<^verbatim>\<open>Distribution.copy\<close>: the new instance, the instance copied (reading its
  \<^verbatim>\<open>parameters\<close> may sanitize it) and the store. A \<^verbatim>\<open>NotImplementedError\<close> of the
  \<^verbatim>\<open>try\<close> is taken to leave the instance and the store as they were.
\<close>

definition copy ::
  "('v, 'n) dist_class \<Rightarrow> 'v dist_instance \<Rightarrow> 'v pdict \<Rightarrow> 'v store \<Rightarrow>
   exn_class + ('v dist_instance \<times> 'v dist_instance \<times> 'v store)" where
  "copy cls self override_parameters_kwargs h =
     (case copy_by_slicing cls self override_parameters_kwargs h of
        Inr result \<Rightarrow> Inr result
      | Inl c \<Rightarrow>
          if c \<noteq> NotImplementedError then Inl c
          else
            (case parameters self h of
               Inl c' \<Rightarrow> Inl c'
             | Inr (p, self1, h1) \<Rightarrow>
                 (case new_dict (dict_update (cells h1 p) override_parameters_kwargs) h1 of
                    (pa, h2) \<Rightarrow>
                      (case constructor cls (cells h2 pa) of
                         Inl c' \<Rightarrow> Inl c'
                       | Inr d \<Rightarrow>
                           Inr (d\<lparr>params_attr := DictAt pa, params_sanitized := Some True\<rparr>,
                                self1, h2)))))"

text \<open>
  An instance with a reference to itself and a private name among its parameters, a
  class that does not support slicing, and a class with the same constructor that does.
\<close>

definition example_store :: "real store" where
  "example_store =
     \<lparr> cells = (\<lambda>a. if a = 0 then [(''loc'', Val 1), (''self'', Obj 7), (''__class__'', Val 0)]
                     else []),
       next_addr = 1 \<rparr>"

definition example_instance :: "real dist_instance" where
  "example_instance =
     \<lparr> ident = 7, params_attr = DictAt 0, params_sanitized = Some False, provenance = None \<rparr>"

definition plain_class :: "(real, nat) dist_class" where
  "plain_class =
     \<lparr> params_event_ndims = Inl NotImplementedError,
       constructor =
         (\<lambda>p. Inr \<lparr> ident = 8, params_attr = Callable p, params_sanitized = Some False,
                     provenance = None \<rparr>) \<rparr>"

definition sliceable_class :: "(real, nat) dist_class" where
  "sliceable_class = plain_class \<lparr> params_event_ndims := Inr 0 \<rparr>"

section \<open>Window sizes of the windowed adaptation\<close>

text \<open>
  Modelled from the spec: \<^verbatim>\<open>windowed_sampling._get_window_sizes\<close> is called by
  \<^verbatim>\<open>test_get_window_sizes\<close> but its module is not among the sources. The spec fixes
  the first and the last window as fractions of the budget, gives \<open>(75, 25, 75)\<close> for
  a budget of 525 (so the slow unit is a 21st of the budget and the first window three
  units), and lets the last window absorb the remainder. Python's \<^verbatim>\<open>//\<close> is floor
  division, as \<open>div\<close> on \<open>int\<close> is.
\<close>

definition get_window_sizes :: "int \<Rightarrow> int \<times> int \<times> int" where
  "get_window_sizes num_adaptation_steps =
     (let slow_window_size = num_adaptation_steps div 21;
          first_window_size = 3 * slow_window_size;
          last_window_size = num_adaptation_steps - 15 * slow_window_size - first_window_size
      in (first_window_size, slow_window_size, last_window_size))"

text \<open>The quantity \<^verbatim>\<open>test_get_window_sizes\<close> compares with the budget.\<close>

definition window_total :: "int \<times> int \<times> int \<Rightarrow> int" where
  "window_total w =
     (case w of (first_window, slow_window, last_window) \<Rightarrow>
        first_window + slow_window + 2 * slow_window + 4 * slow_window + 8 * slow_window
          + last_window)"

section \<open>The resolver of the calling convention\<close>

subsection \<open>Auxiliary facts\<close>

lemma map_of_filter_key:
  "k \<noteq> key \<Longrightarrow> map_of (filter (\<lambda>(k', v). k' \<noteq> key) kwargs) k = map_of kwargs k"
  by (induction kwargs) auto

lemma filter_True_kwargs: "filter (\<lambda>(k, v). True) kwargs = kwargs"
  by (induction kwargs) auto

lemma assert_same_structure_raises:
  "assert_same_structure n1 n2 = Inl c \<Longrightarrow> c = ValueError"
  by (subst (asm) assert_same_structure.simps) (auto split: if_splits)

text \<open>A keyword is unmatched exactly when its name is not a declared name.\<close>

lemma unmatched_filter:
  "filter (\<lambda>(k, v). k \<notin> set (filter (\<lambda>k. map_of kwargs k \<noteq> None) flat_names)) kwargs
   = filter (\<lambda>(k, v). k \<notin> set flat_names) kwargs"
  by (rule filter_cong) (auto simp: map_of_eq_None_iff image_iff)

text \<open>
  The resolver past its first two exits: no \<^verbatim>\<open>value\<close> keyword is respected, and the
  call is not one positional argument without a matched keyword.
\<close>

lemma resolve_general_path:
  assumes "kwargs_pop ''value'' kwargs0 = (PyNone, kwargs)"
    and "\<not> (length args = 1 \<and> (\<forall>k \<in> set flat_names. map_of kwargs k = None))"
    and "num = int (length args) + int (length kwargs)
               - int (length (filter (\<lambda>(k, v). k \<notin> set flat_names) kwargs))"
  shows "resolve_value_from_args args kwargs0 dtype flat_names model_flatten_fn model_unflatten_fn
     = (if num \<noteq> int (length flat_names) then
          Inl (CountError (length flat_names) flat_names num args kwargs)
        else if args \<noteq> [] \<and> is_unordered_dict dtype then Inl (UnorderedError args)
        else
          (case collect (map (component_value args kwargs) (enumerate 0 flat_names)) of
             Inl c \<Rightarrow> Inl (Raised c)
           | Inr vs \<Rightarrow>
               (case model_unflatten_fn vs of
                  Inl c \<Rightarrow> Inl (Raised c)
                | Inr v \<Rightarrow> Inr (v, filter (\<lambda>(k, v). k \<notin> set flat_names) kwargs))))"
proof -
  have single: "(length args = 1 \<and> filter (\<lambda>k. map_of kwargs k \<noteq> None) flat_names = []) = False"
    using assms(2) by (auto simp: filter_empty_conv)
  show ?thesis
    by (simp only: resolve_value_from_args_def assms(1) assms(3) prod.case Let_def single
          unmatched_filter if_False simp_thms)
qed

lemma collect_component_values:
  "collect (map (component_value args kwargs) (enumerate j names))
   = (if list_all (\<lambda>(i, k). map_of kwargs k = None \<longrightarrow> i < length args) (enumerate j names)
      then Inr (map (by_index args kwargs) (enumerate j names))
      else Inl IndexError)"
  by (induction names arbitrary: j)
     (auto simp: component_value_def by_index_def split: option.splits)

lemma count_matched:
  assumes "distinct (map fst kwargs)" and "distinct names"
  shows "length (filter (\<lambda>(k, v). k \<in> set names) kwargs)
         = length (filter (\<lambda>k. map_of kwargs k \<noteq> None) names)"
proof -
  have "length (filter (\<lambda>(k, v). k \<in> set names) kwargs)
        = length (filter (\<lambda>k. k \<in> set names) (map fst kwargs))"
    by (induction kwargs) auto
  also have "\<dots> = card ({k. k \<in> set names} \<inter> set (map fst kwargs))"
    using assms(1) by (rule distinct_length_filter)
  also have "\<dots> = card ({k. map_of kwargs k \<noteq> None} \<inter> set names)"
    by (rule arg_cong [where f = card]) (auto simp: map_of_eq_None_iff)
  also have "\<dots> = length (filter (\<lambda>k. map_of kwargs k \<noteq> None) names)"
    using assms(2) by (rule distinct_length_filter [symmetric])
  finally show ?thesis .
qed

lemma positional_prefix:
  assumes "distinct (map fst kwargs)" and "distinct names"
    and "int (length args) + int (length kwargs)
           - int (length (filter (\<lambda>(k, v). k \<notin> set names) kwargs)) = int (length names)"
    and "\<forall>i < length names. map_of kwargs (names ! i) = None \<longrightarrow> i < length args"
  shows "\<forall>i < length names. map_of kwargs (names ! i) = None \<longleftrightarrow> i < length args"
proof -
  let ?A = "{i. i < length names \<and> map_of kwargs (names ! i) = None}"
  have "length kwargs = length (filter (\<lambda>(k, v). k \<in> set names) kwargs)
          + length (filter (\<lambda>(k, v). k \<notin> set names) kwargs)"
    by (induction kwargs) auto
  with assms(3) have "length args + length (filter (\<lambda>(k, v). k \<in> set names) kwargs) = length names"
    by linarith
  then have "length args + length (filter (\<lambda>k. map_of kwargs k \<noteq> None) names) = length names"
    by (simp add: count_matched [OF assms(1,2)])
  moreover have "length names = length (filter (\<lambda>k. map_of kwargs k \<noteq> None) names)
                    + length (filter (\<lambda>k. \<not> map_of kwargs k \<noteq> None) names)"
    by (rule sum_length_filter_compl [symmetric])
  ultimately have "length (filter (\<lambda>k. map_of kwargs k = None) names) = length args"
    by simp
  then have card: "card ?A = length args"
    by (simp add: length_filter_conv_card)
  have sub: "?A \<subseteq> {..<length args}"
    using assms(4) by auto
  have "?A = {..<length args}"
    using sub card by (intro card_subset_eq) auto
  then show ?thesis by blast
qed

lemma walk_agrees:
  "\<forall>i < length names. map_of kwargs (names ! i) = None \<longleftrightarrow> i < length args \<Longrightarrow>
   spec_walk_next_unused names args kwargs
   = Some (map (\<lambda>(i, k). case map_of kwargs k of Some v \<Rightarrow> v | None \<Rightarrow> args ! (i - j))
             (enumerate j names))"
proof (induction names arbitrary: args j)
  case Nil
  then show ?case by simp
next
  case (Cons k ks)
  show ?case
  proof (cases "map_of kwargs k")
    case None
    with Cons.prems obtain a rest where args: "args = a # rest"
      by (cases args) auto
    have "\<forall>i < length ks. map_of kwargs (ks ! i) = None \<longleftrightarrow> i < length rest"
      using Cons.prems args by auto
    from Cons.IH [OF this, of "Suc j"] show ?thesis
      using None args
      by (auto simp: in_set_enumerate_eq Suc_diff_Suc intro!: map_cong split: option.splits)
  next
    case (Some v)
    with Cons.prems have args: "args = []"
      by (cases args) auto
    have "\<forall>i < length ks. map_of kwargs (ks ! i) = None \<longleftrightarrow> i < length ([] :: 'a nest list)"
      using Cons.prems args by auto
    have some: "map_of kwargs (ks ! i) \<noteq> None" if "i < length ks" for i
      using Cons.prems args that by (auto dest: spec [of _ "Suc i"])
    have "map (\<lambda>(i, k). case map_of kwargs k of Some v \<Rightarrow> v | None \<Rightarrow> [] ! (i - Suc j))
            (enumerate (Suc j) ks)
          = map (\<lambda>(i, k). case map_of kwargs k of Some v \<Rightarrow> v | None \<Rightarrow> [] ! (i - j))
            (enumerate (Suc j) ks)"
    proof (rule map_cong [OF refl])
      fix x assume xin: "x \<in> set (enumerate (Suc j) ks)"
      obtain i k' where xeq: "x = (i, k')"
        by (cases x)
      with xin have bounds: "Suc j \<le> i" "i < length ks + Suc j" and x: "x = (i, ks ! (i - Suc j))"
        by (auto simp: in_set_enumerate_eq)
      from bounds have "i - Suc j < length ks"
        by arith
      then have "map_of kwargs (ks ! (i - Suc j)) \<noteq> None"
        by (rule some)
      then show "(case x of (i, k) \<Rightarrow> case map_of kwargs k of Some v \<Rightarrow> v | None \<Rightarrow> [] ! (i - Suc j))
                 = (case x of (i, k) \<Rightarrow> case map_of kwargs k of Some v \<Rightarrow> v | None \<Rightarrow> [] ! (i - j))"
        using x by auto
    qed
    moreover have "spec_walk_next_unused ks [] kwargs
        = Some (map (\<lambda>(i, k). case map_of kwargs k of Some v \<Rightarrow> v | None \<Rightarrow> [] ! (i - Suc j))
                  (enumerate (Suc j) ks))"
      using Cons.IH [of "[]" "Suc j"] some by simp
    ultimately show ?thesis
      unfolding args using Some by simp
  qed
qed


lemma positional_available_nth:
  "positional_available args kwargs names
   \<longleftrightarrow> (\<forall>i < length names. map_of kwargs (names ! i) = None \<longrightarrow> i < length args)"
proof
  assume avail: "positional_available args kwargs names"
  show "\<forall>i < length names. map_of kwargs (names ! i) = None \<longrightarrow> i < length args"
  proof (intro allI impI)
    fix i assume "i < length names" and none: "map_of kwargs (names ! i) = None"
    then have "(i, names ! i) \<in> set (enumerate 0 names)"
      by (simp add: in_set_enumerate_eq)
    with avail none show "i < length args"
      by (auto simp: positional_available_def list_all_iff)
  qed
next
  assume "\<forall>i < length names. map_of kwargs (names ! i) = None \<longrightarrow> i < length args"
  then show "positional_available args kwargs names"
    by (auto simp: positional_available_def list_all_iff in_set_enumerate_eq)
qed

lemma walk_agrees_by_index:
  assumes "\<forall>i < length names. map_of kwargs (names ! i) = None \<longleftrightarrow> i < length args"
  shows "spec_walk_next_unused names args kwargs = Some (map (by_index args kwargs) (enumerate 0 names))"
proof -
  have "(\<lambda>(i, k). case map_of kwargs k of Some v \<Rightarrow> v | None \<Rightarrow> args ! (i - 0))
        = by_index args kwargs"
    by (rule ext) (simp add: by_index_def split: prod.splits option.splits)
  with walk_agrees [OF assms, of 0] show ?thesis
    by (simp only:)
qed

subsection \<open>One positional argument\<close>

text \<open>
  C1: a call with exactly one positional argument, no keyword that names a declared
  component and no \<^verbatim>\<open>value\<close> keyword to respect. When the model's dtype has more than
  one entry the argument is returned unchanged as the whole value. When it has exactly
  one entry (and the model's unflatten function accepts the one-element sequence) the
  argument is wrapped by the unflatten function exactly when
  \<^verbatim>\<open>assert_same_structure\<close> accepts it against the first component's dtype, and is
  returned unchanged as the whole value otherwise. All keywords except \<^verbatim>\<open>value\<close> are
  returned as unmatched.
\<close>

theorem single_positional:
  assumes "map_of kwargs ''value'' = None \<or> map_of kwargs ''value'' = Some PyNone"
    and "\<forall>k \<in> set flat_names. map_of kwargs k = None"
    and "py_len dtype = Inr n"
    and "1 < n \<or> (n = 1 \<and> model_flatten_fn dtype = Inr (d # ds) \<and> model_unflatten_fn [a] = Inr w)"
  shows "resolve_value_from_args [a] kwargs dtype flat_names model_flatten_fn model_unflatten_fn
         = Inr (if 1 < n then a else if assert_same_structure d a = Inr () then w else a,
                filter (\<lambda>(k, x). k \<noteq> ''value'') kwargs)"
proof -
  let ?kw = "filter (\<lambda>(k, x). k \<noteq> ''value'') kwargs"
  have pop: "kwargs_pop ''value'' kwargs = (PyNone, ?kw)"
    using assms(1) by (auto simp: kwargs_pop_def)
  have nomatch: "filter (\<lambda>k. map_of ?kw k \<noteq> None) flat_names = []"
  proof -
    have "map_of ?kw k = None" if "k \<in> set flat_names" for k
    proof (cases "k = ''value''")
      case True
      then show ?thesis by (auto simp: map_of_eq_None_iff)
    next
      case False
      then show ?thesis using assms(2) that by (simp add: map_of_filter_key)
    qed
    then show ?thesis by (simp add: filter_empty_conv)
  qed
  have check: "assert_same_structure d a = Inr () \<or> assert_same_structure d a = Inl ValueError"
    by (cases "assert_same_structure d a") (auto dest: assert_same_structure_raises)
  show ?thesis
    using assms(3,4) check
    unfolding resolve_value_from_args_def pop prod.case Let_def nomatch
    by (auto simp: filter_True_kwargs caught_def)
qed

text \<open>
  On a list model with one scalar component both \<^verbatim>\<open>f(4.)\<close> and \<^verbatim>\<open>f([4.])\<close> resolve
  to \<^verbatim>\<open>[4.]\<close>; on a model with two components \<^verbatim>\<open>f(4.)\<close> resolves to \<^verbatim>\<open>4.\<close> itself.
\<close>

theorem single_positional_witness:
  "resolve_value_from_args [Leaf (4::real)] [] (Seq [f32]) [''x'']
     list_model_flatten list_model_unflatten = Inr (Seq [Leaf 4], [])
   \<and> resolve_value_from_args [Seq [Leaf (4::real)]] [] (Seq [f32]) [''x'']
     list_model_flatten list_model_unflatten = Inr (Seq [Leaf 4], [])
   \<and> resolve_value_from_args [Leaf (4::real)] [] (Seq [f32, f32]) [''y'', ''x'']
     list_model_flatten list_model_unflatten = Inr (Leaf 4, [])"
  using single_positional [of "[]" "[''x'']" "Seq [f32]" 1 list_model_flatten f32 "[]"
            list_model_unflatten "Leaf (4::real)" "Seq [Leaf 4]"]
        single_positional [of "[]" "[''x'']" "Seq [f32]" 1 list_model_flatten f32 "[]"
            list_model_unflatten "Seq [Leaf (4::real)]" "Seq [Seq [Leaf 4]]"]
        single_positional [of "[]" "[''y'', ''x'']" "Seq [f32, f32]" 2 list_model_flatten f32 "[]"
            list_model_unflatten "Leaf (4::real)" "Seq [Leaf 4]"]
  by (simp add: list_model_flatten_def list_model_unflatten_def f32_def
        assert_same_structure.simps)

subsection \<open>Walking the declared names\<close>

text \<open>
  C2, as the code has it: past the count check and the check that permits positional
  arguments, each component is taken from the keywords if its name is there and
  otherwise from the positional argument at the component's own position in the
  declared names. If some component without a keyword has no positional argument at its
  position the call fails with an \<^verbatim>\<open>IndexError\<close>; otherwise the values are handed to
  the model's unflatten function, and they are the ones that the walk of the spec (next
  unused positional argument) produces.
\<close>

theorem resolve_by_declaration_index:
  assumes "kwargs_pop ''value'' kwargs0 = (PyNone, kwargs)"
    and "\<not> (length args = 1 \<and> (\<forall>k \<in> set flat_names. map_of kwargs k = None))"
    and "int (length args) + int (length kwargs)
           - int (length (filter (\<lambda>(k, v). k \<notin> set flat_names) kwargs)) = int (length flat_names)"
    and "args = [] \<or> \<not> is_unordered_dict dtype"
    and "distinct (map fst kwargs)" and "distinct flat_names"
  shows "resolve_value_from_args args kwargs0 dtype flat_names model_flatten_fn model_unflatten_fn
         = (if positional_available args kwargs flat_names
            then (case model_unflatten_fn (map (by_index args kwargs) (enumerate 0 flat_names)) of
                    Inl c \<Rightarrow> Inl (Raised c)
                  | Inr v \<Rightarrow> Inr (v, filter (\<lambda>(k, v). k \<notin> set flat_names) kwargs))
            else Inl (Raised IndexError))
       \<and> (positional_available args kwargs flat_names \<longrightarrow>
            spec_walk_next_unused flat_names args kwargs
            = Some (map (by_index args kwargs) (enumerate 0 flat_names)))"
proof
  show "resolve_value_from_args args kwargs0 dtype flat_names model_flatten_fn model_unflatten_fn
         = (if positional_available args kwargs flat_names
            then (case model_unflatten_fn (map (by_index args kwargs) (enumerate 0 flat_names)) of
                    Inl c \<Rightarrow> Inl (Raised c)
                  | Inr v \<Rightarrow> Inr (v, filter (\<lambda>(k, v). k \<notin> set flat_names) kwargs))
            else Inl (Raised IndexError))"
    unfolding resolve_general_path [OF assms(1,2) refl] collect_component_values
      positional_available_def
    using assms(3,4) by auto
next
  show "positional_available args kwargs flat_names \<longrightarrow>
            spec_walk_next_unused flat_names args kwargs
            = Some (map (by_index args kwargs) (enumerate 0 flat_names))"
  proof
    assume "positional_available args kwargs flat_names"
    then have "\<forall>i < length flat_names. map_of kwargs (flat_names ! i) = None \<longrightarrow> i < length args"
      by (simp add: positional_available_nth)
    from positional_prefix [OF assms(5,6,3) this]
    show "spec_walk_next_unused flat_names args kwargs
            = Some (map (by_index args kwargs) (enumerate 0 flat_names))"
      by (rule walk_agrees_by_index)
  qed
qed

text \<open>
  The calls \<^verbatim>\<open>f(1., 2., 3.)\<close>, \<^verbatim>\<open>f(z=1., y=2., x=3.)\<close> and \<^verbatim>\<open>f(1., 2., x=3.)\<close> on a
  list model with the components \<open>z\<close>, \<open>y\<close>, \<open>x\<close> all resolve to \<^verbatim>\<open>[1., 2., 3.]\<close>, as
  \<^verbatim>\<open>f(value=[1., 2., 3.])\<close> does.
\<close>

theorem resolve_by_declaration_index_witness:
  "resolve_value_from_args [Leaf (1::real), Leaf 2, Leaf 3] [] (Seq [f32, f32, f32])
     [''z'', ''y'', ''x''] list_model_flatten list_model_unflatten
   = Inr (Seq [Leaf 1, Leaf 2, Leaf 3], [])
   \<and> resolve_value_from_args [] [(''z'', Leaf (1::real)), (''y'', Leaf 2), (''x'', Leaf 3)]
       (Seq [f32, f32, f32]) [''z'', ''y'', ''x''] list_model_flatten list_model_unflatten
   = Inr (Seq [Leaf 1, Leaf 2, Leaf 3], [])
   \<and> resolve_value_from_args [Leaf (1::real), Leaf 2] [(''x'', Leaf 3)]
       (Seq [f32, f32, f32]) [''z'', ''y'', ''x''] list_model_flatten list_model_unflatten
   = Inr (Seq [Leaf 1, Leaf 2, Leaf 3], [])
   \<and> resolve_value_from_args [] [(''value'', Seq [Leaf (1::real), Leaf 2, Leaf 3])]
       (Seq [f32, f32, f32]) [''z'', ''y'', ''x''] list_model_flatten list_model_unflatten
   = Inr (Seq [Leaf 1, Leaf 2, Leaf 3], [])
   \<and> spec_walk_next_unused [''z'', ''y'', ''x''] [Leaf (1::real), Leaf 2] [(''x'', Leaf 3)]
   = Some [Leaf 1, Leaf 2, Leaf 3]"
  using resolve_by_declaration_index [of "[]" "[]" "[Leaf (1::real), Leaf 2, Leaf 3]"
          "[''z'', ''y'', ''x'']" "Seq [f32, f32, f32]" list_model_flatten list_model_unflatten]
        resolve_by_declaration_index [of "[(''z'', Leaf (1::real)), (''y'', Leaf 2), (''x'', Leaf 3)]"
          "[(''z'', Leaf (1::real)), (''y'', Leaf 2), (''x'', Leaf 3)]" "[]"
          "[''z'', ''y'', ''x'']" "Seq [f32, f32, f32]" list_model_flatten list_model_unflatten]
        resolve_by_declaration_index [of "[(''x'', Leaf (3::real))]" "[(''x'', Leaf (3::real))]"
          "[Leaf 1, Leaf 2]"
          "[''z'', ''y'', ''x'']" "Seq [f32, f32, f32]" list_model_flatten list_model_unflatten]
  by (simp add: kwargs_pop_def positional_available_def by_index_def list_model_unflatten_def
        resolve_value_from_args_def)

text \<open>
  The claim as stated fails for \<^verbatim>\<open>f(2., 3., z=1.)\<close>: both checks pass, the walk of the
  spec gives \<^verbatim>\<open>[1., 2., 3.]\<close>, and the code raises an \<^verbatim>\<open>IndexError\<close> at \<^verbatim>\<open>args[2]\<close>.
\<close>

theorem next_unused_counterexample:
  "spec_walk_next_unused [''z'', ''y'', ''x''] [Leaf (2::real), Leaf 3] [(''z'', Leaf 1)]
     = Some [Leaf 1, Leaf 2, Leaf 3]
   \<and> resolve_value_from_args [Leaf (2::real), Leaf 3] [(''z'', Leaf 1)] (Seq [f32, f32, f32])
       [''z'', ''y'', ''x''] list_model_flatten list_model_unflatten
     = Inl (Raised IndexError)"
  by (simp add: assert_same_structure.simps resolve_value_from_args_def kwargs_pop_def
        component_value_def caught_def list_model_flatten_def list_model_unflatten_def f32_def)

subsection \<open>The count of the components\<close>

text \<open>
  C3: for a call that takes neither the \<^verbatim>\<open>value\<close> keyword exit nor the
  single-positional exit, with \<open>num\<close> the number of positional arguments plus the number
  of keywords minus the number of unmatched keywords: if \<open>num\<close> differs from the number
  of declared components the call fails with the count error, which carries the number
  and the names of the declared components, \<open>num\<close>, and the arguments received; if
  \<open>num\<close> equals it the call does not fail with a count error.
\<close>

theorem count_mismatch_iff:
  assumes "kwargs_pop ''value'' kwargs0 = (PyNone, kwargs)"
    and "\<not> (length args = 1 \<and> (\<forall>k \<in> set flat_names. map_of kwargs k = None))"
    and "num = int (length args) + int (length kwargs)
               - int (length (filter (\<lambda>(k, v). k \<notin> set flat_names) kwargs))"
  shows "(num \<noteq> int (length flat_names) \<longrightarrow>
            resolve_value_from_args args kwargs0 dtype flat_names model_flatten_fn model_unflatten_fn
            = Inl (CountError (length flat_names) flat_names num args kwargs))
       \<and> (num = int (length flat_names) \<longrightarrow>
            (\<forall>n ns c as ks.
               resolve_value_from_args args kwargs0 dtype flat_names model_flatten_fn model_unflatten_fn
               \<noteq> Inl (CountError n ns c as ks)))"
  unfolding resolve_general_path [OF assms] by (simp split: sum.splits)

text \<open>\<^verbatim>\<open>f(1., 2.)\<close> on a model with three components fails with the count error.\<close>

theorem count_mismatch_iff_witness:
  "resolve_value_from_args [Leaf 1, Leaf (2::real)] [] (Seq [f32, f32, f32]) [''z'', ''y'', ''x'']
     list_model_flatten list_model_unflatten
   = Inl (CountError 3 [''z'', ''y'', ''x''] 2 [Leaf 1, Leaf 2] [])"
  using count_mismatch_iff [of "[]" "[]" "[Leaf 1, Leaf (2::real)]" "[''z'', ''y'', ''x'']" 2
          "Seq [f32, f32, f32]" list_model_flatten list_model_unflatten]
  by (simp add: kwargs_pop_def)


subsection \<open>The \<^verbatim>\<open>value\<close> keyword\<close>

text \<open>
  C4, as the code has it: a \<^verbatim>\<open>value\<close> keyword whose value is not \<^verbatim>\<open>None\<close> is returned
  outright, whatever the other arguments are, and all the other keywords are returned as
  unmatched.
\<close>

theorem value_keyword_priority:
  assumes "map_of kwargs ''value'' = Some v" and "v \<noteq> PyNone"
  shows "resolve_value_from_args args kwargs dtype flat_names model_flatten_fn model_unflatten_fn
         = Inr (v, filter (\<lambda>(k, x). k \<noteq> ''value'') kwargs)"
  using assms by (simp add: resolve_value_from_args_def kwargs_pop_def)


theorem value_keyword_priority_witness:
  "resolve_value_from_args [Leaf (9::real)]
     [(''value'', Seq [Leaf 1, Leaf 2, Leaf 3]), (''extra'', Leaf 0)]
     (Seq [f32, f32, f32]) [''z'', ''y'', ''x''] list_model_flatten list_model_unflatten
   = Inr (Seq [Leaf 1, Leaf 2, Leaf 3], [(''extra'', Leaf 0)])"
  using value_keyword_priority [of "[(''value'', Seq [Leaf 1, Leaf 2, Leaf 3]), (''extra'', Leaf (0::real))]"
          "Seq [Leaf 1, Leaf 2, Leaf 3]" "[Leaf 9]" "Seq [f32, f32, f32]" "[''z'', ''y'', ''x'']"
          list_model_flatten list_model_unflatten]
  by simp

text \<open>
  The claim as stated fails for \<^verbatim>\<open>f(1., 2., value=None)\<close>: the keyword is present, and
  the call resolves to \<^verbatim>\<open>[1., 2.]\<close> from the positional arguments, not to \<^verbatim>\<open>None\<close>.
\<close>

theorem value_keyword_none_counterexample:
  "map_of [(''value'', PyNone :: real nest)] ''value'' = Some PyNone
   \<and> resolve_value_from_args [Leaf 1, Leaf 2] [(''value'', PyNone :: real nest)]
         (Seq [f32, f32]) [''z'', ''y''] list_model_flatten list_model_unflatten
       = Inr (Seq [Leaf 1, Leaf 2], [])
   \<and> resolve_value_from_args [Leaf 1, Leaf 2] [(''value'', PyNone :: real nest)]
         (Seq [f32, f32]) [''z'', ''y''] list_model_flatten list_model_unflatten
       \<noteq> Inr (PyNone, [])"
  by (simp add: assert_same_structure.simps resolve_value_from_args_def kwargs_pop_def
        component_value_def caught_def list_model_flatten_def list_model_unflatten_def f32_def)

section \<open>Measures\<close>

subsection \<open>One of \<^verbatim>\<open>prob\<close> and \<^verbatim>\<open>log_prob\<close> from the other\<close>

text \<open>
  C6: for a distribution that has only the primitive \<^verbatim>\<open>_log_prob\<close>, \<^verbatim>\<open>prob(x)\<close> is
  \<^verbatim>\<open>exp\<close> of \<^verbatim>\<open>log_prob(x)\<close> (and fails as \<^verbatim>\<open>log_prob(x)\<close> does when that fails); for one
  that has only \<^verbatim>\<open>_prob\<close>, \<^verbatim>\<open>log_prob(x)\<close> is \<^verbatim>\<open>log\<close> of \<^verbatim>\<open>prob(x)\<close>; with neither
  primitive both methods fail, and for a value that the conversions accept they fail
  with the \<^verbatim>\<open>NotImplementedError\<close> of the method.
\<close>

theorem prob_and_log_prob_derived:
  "(log_prob_primitive d \<noteq> None \<and> prob_primitive d = None \<longrightarrow>
      call_prob B d x name kwargs = map_sum id (tf_exp B) (call_log_prob B d x name' kwargs))
   \<and> (prob_primitive d \<noteq> None \<and> log_prob_primitive d = None \<longrightarrow>
      call_log_prob B d x name kwargs = map_sum id (tf_log B) (call_prob B d x name' kwargs))
   \<and> (log_prob_primitive d = None \<and> prob_primitive d = None \<longrightarrow>
        (\<exists>e. call_log_prob B d x name kwargs = Inl e) \<and> (\<exists>e. call_prob B d x name kwargs = Inl e)
        \<and> (cast_and_convert d x = Inr v \<longrightarrow>
              call_log_prob B d x name kwargs
                = Inl (NotImplemented (''log_prob is not implemented: '' @ class_name d))
              \<and> call_prob B d x name kwargs
                = Inl (NotImplemented (''prob is not implemented: '' @ class_name d))))"
  by (auto simp: call_log_prob_def call_prob_def split: sum.splits option.splits)

theorem prob_and_log_prob_derived_witness:
  "call_prob real_backend only_log_prob (Leaf 2) ''prob'' [] = Inr (exp (- 4))
   \<and> call_log_prob real_backend only_log_prob (Leaf 2) ''log_prob'' [] = Inr (- 4)
   \<and> call_log_prob real_backend only_prob (Leaf 2) ''log_prob'' [] = Inr (ln 5)
   \<and> call_prob real_backend only_prob (Leaf 2) ''prob'' [] = Inr 5
   \<and> call_log_prob real_backend no_primitive (Leaf 2) ''log_prob'' []
       = Inl (NotImplemented ''log_prob is not implemented: NoPrimitive'')
   \<and> call_prob real_backend no_primitive (Leaf 2) ''prob'' []
       = Inl (NotImplemented ''prob is not implemented: NoPrimitive'')"
  using prob_and_log_prob_derived [of only_log_prob real_backend "Leaf 2" "''prob''" "[]" "''log_prob''"]
        prob_and_log_prob_derived [of only_prob real_backend "Leaf 2" "''log_prob''" "[]" "''prob''"]
        prob_and_log_prob_derived [of no_primitive real_backend "Leaf 2" "''log_prob''" "[]" "''prob''"]
  by (simp add: real_backend_def only_log_prob_def only_prob_def no_primitive_def
        call_log_prob_def call_prob_def)

subsection \<open>No part of a value may be \<^verbatim>\<open>None\<close>\<close>




subsection \<open>The joint \<^verbatim>\<open>log_prob\<close> is the sum of its parts\<close>

lemma collect_map_Inr: "collect (map Inr xs) = Inr xs"
  by (induction xs) auto

text \<open>
  For a joint model whose flatten function inverts its unflatten function, whenever
  \<^verbatim>\<open>log_prob_parts\<close> returns the parts for a value, \<^verbatim>\<open>_log_prob\<close> returns Python's sum of
  the flattened parts for the same value; when \<^verbatim>\<open>log_prob_parts\<close> fails, \<^verbatim>\<open>_log_prob\<close>
  fails in the same way, unless it was the unflatten function that failed.
\<close>

lemma log_prob_sums_parts:
  assumes "\<forall>ys v. model_unflatten jd ys = Inr v \<longrightarrow> model_flatten jd v = Inr ys"
  shows "(\<forall>parts. log_prob_parts B jd value = Inr parts \<longrightarrow>
            (\<exists>xs. model_flatten jd parts = Inr (map Leaf xs)
                 \<and> jd_log_prob B jd value = Inr (py_sum B xs)))
       \<and> (\<forall>e. log_prob_parts B jd value = Inl e \<longrightarrow>
            jd_log_prob B jd value = Inl e
            \<or> (\<exists>c xs. e = Raised c \<and> model_unflatten jd (map Leaf xs) = Inl c
                    \<and> jd_log_prob B jd value = Inr (py_sum B xs)))"
proof (intro conjI allI impI)
  fix parts assume "log_prob_parts B jd value = Inr parts"
  then show "\<exists>xs. model_flatten jd parts = Inr (map Leaf xs)
                 \<and> jd_log_prob B jd value = Inr (py_sum B xs)"
    using assms
    by (auto simp: log_prob_parts_def jd_log_prob_def split: sum.splits)
next
  fix e assume "log_prob_parts B jd value = Inl e"
  then show "jd_log_prob B jd value = Inl e
            \<or> (\<exists>c xs. e = Raised c \<and> model_unflatten jd (map Leaf xs) = Inl c
                    \<and> jd_log_prob B jd value = Inr (py_sum B xs))"
    by (fastforce simp: log_prob_parts_def jd_log_prob_def split: sum.splits)
qed

text \<open>
  Without \<^verbatim>\<open>validate_args\<close>, \<^verbatim>\<open>maybe_check_wont_broadcast\<close> compares nothing and returns
  the parts unchanged. With \<^verbatim>\<open>validate_args\<close> and static shapes it returns the parts
  unchanged when every two neighbouring shapes pass \<^verbatim>\<open>np.all(a == b)\<close>, and raises its
  \<^verbatim>\<open>ValueError\<close> otherwise.
\<close>

lemma maybe_check_wont_broadcast_parts:
  "maybe_check_wont_broadcast B (map Inr xs) False = Inr xs"
  "list_all is_numpy (map (shape B) xs) \<Longrightarrow>
   maybe_check_wont_broadcast B (map Inr xs) True
   = (if list_all (\<lambda>(a, b). np_all_equal a b)
           (zip (tl (map (shape B) xs)) (butlast (map (shape B) xs)))
      then Inr xs else Inl BroadcastError)"
  by (simp_all add: maybe_check_wont_broadcast_def collect_map_Inr Let_def)

text \<open>Two equal static shapes pass the comparison; \<^verbatim>\<open>[3]\<close> and \<^verbatim>\<open>[4]\<close> do not.\<close>

lemma np_all_equal_same: "np_all_equal (Static a) (Static a)"
  by (simp add: list_all_length)

lemma np_all_equal_3_4: "\<not> np_all_equal (Static [3]) (Static [4])"
  by simp

text \<open>
  C5: the claim holds for the sum, and the check is made only with \<^verbatim>\<open>validate_args\<close>;
  but the check that is made does not reject all broadcasting. For the model with
  \<^verbatim>\<open>validate_args=True\<close> whose parts have the static shapes \<^verbatim>\<open>[]\<close> and \<^verbatim>\<open>[3]\<close>, the
  comparison of the two shapes is \<^verbatim>\<open>np.all(np.array([3]) == np.array([]))\<close>, which
  broadcasts to an empty array and is true: \<^verbatim>\<open>maybe_check_wont_broadcast\<close> returns the
  parts, \<^verbatim>\<open>log_prob_parts\<close> returns them with their different shapes, and \<^verbatim>\<open>_log_prob\<close>
  adds them, by broadcasting, to a tensor of shape \<^verbatim>\<open>[3]\<close>.
\<close>

theorem broadcast_not_rejected:
  "validate_args scalar_and_vector
   \<and> np_all_equal (Static [3]) (Static [] :: unit shape_value)
   \<and> maybe_check_wont_broadcast filled_backend [Inr ([], - 1), Inr ([3], - 4)] True
       = Inr [([], - 1), ([3], - 4)]
   \<and> log_prob_parts filled_backend scalar_and_vector (Seq [Leaf ([], 1), Leaf ([], 2)])
       = Inr (Seq [Leaf ([], - 1), Leaf ([3], - 4)])
   \<and> jd_log_prob filled_backend scalar_and_vector (Seq [Leaf ([], 1), Leaf ([], 2)])
       = Inr ([3], - 5)"
  by (simp add: scalar_and_vector_def filled_backend_def batch_of_def broadcast_shape_def
        list_model_flatten_def list_model_unflatten_def log_prob_parts_def jd_log_prob_def
        map_measure_over_dists_def call_flat_sample_distributions_def
        maybe_check_wont_broadcast_def py_sum_def log_prob_def call_log_prob_def
        nest_flatten.simps Let_def)

section \<open>Parameters and copies\<close>

lemma parameters_returns:
  assumes "params_invariant self h"
  shows "\<exists>r self1 h1. parameters self h = Inr (r, self1, h1)"
  using assms
  by (auto simp: parameters_def params_invariant_def new_dict_def Let_def
           split: params_attr.splits)

text \<open>An instance as \<^verbatim>\<open>__init__\<close> leaves it, flagged as not sanitized, is in such a state.\<close>

lemma params_invariant_init:
  assumes "params_sanitized self = Some False"
    and "case params_attr self of DictAt a \<Rightarrow> a < next_addr h | Callable d \<Rightarrow> True"
  shows "params_invariant self h"
  using assms by (simp add: params_invariant_def split: params_attr.splits)

subsection \<open>Reading \<^verbatim>\<open>parameters\<close>\<close>

text \<open>
  C9: a read of \<^verbatim>\<open>parameters\<close> returns a \<^verbatim>\<open>dict\<close> without an entry whose value is the
  instance itself, and leaves the instance flagged as sanitized; an instance that was
  flagged already is not changed by the read, so that the parameters are sanitized at
  most once; and whatever a caller then writes into the \<^verbatim>\<open>dict\<close> that was returned, the
  next read returns a \<^verbatim>\<open>dict\<close> at another address with the contents of the first one,
  again without changing the instance.
\<close>

theorem parameters_stable:
  assumes "params_invariant self h"
    and "parameters self h = Inr (r, self1, h1)"
  shows "list_all (\<lambda>(k, v). v \<noteq> Obj (ident self)) (cells h1 r)
       \<and> params_invariant self1 h1
       \<and> params_sanitized self1 = Some True
       \<and> (params_sanitized self = Some True \<longrightarrow> self1 = self)
       \<and> (\<exists>r2 h2. parameters self1 (caller_mutates r d h1) = Inr (r2, self1, h2)
                  \<and> cells h2 r2 = cells h1 r \<and> r2 \<noteq> r)"
  using assms
  by (auto simp: parameters_def params_invariant_def new_dict_def Let_def caller_mutates_def
        list_all_iff split: params_attr.splits if_splits)

theorem parameters_stable_witness:
  "params_invariant example_instance example_store
   \<and> (case parameters example_instance example_store of
         Inl c \<Rightarrow> False
       | Inr (r, self1, h1) \<Rightarrow>
           cells h1 r = [(''loc'', Val 1)]
           \<and> params_sanitized self1 = Some True
           \<and> read_parameters self1 (caller_mutates r [(''loc'', Val 2)] h1)
               = Some [(''loc'', Val 1)])"
proof -
  have inv: "params_invariant example_instance example_store"
    by (simp add: params_invariant_def example_store_def example_instance_def)
  obtain r self1 h1 where eq: "parameters example_instance example_store = Inr (r, self1, h1)"
    using parameters_returns [OF inv] by blast
  have "cells h1 r = [(''loc'', Val 1)]"
    using eq by (auto simp: parameters_def new_dict_def startswith_dunder_def example_store_def
          example_instance_def)
  with parameters_stable [OF inv eq, of "[(''loc'', Val 2)]"] inv eq show ?thesis
    by (auto simp: read_parameters_def)
qed

subsection \<open>\<^verbatim>\<open>copy\<close>\<close>

lemma dict_update_Nil: "dict_update p [] = p"
  by (simp add: dict_update_def)

text \<open>
  The instance that both paths build from the parameters \<open>p\<close> of the original and the
  instance \<open>d0\<close> that the constructor returns: reading its parameters gives \<open>p\<close> with
  the overrides.
\<close>

lemma read_parameters_built:
  "read_parameters (d0\<lparr>params_attr := DictAt (fst (new_dict q h)), params_sanitized := Some True\<rparr>)
     (snd (new_dict q h)) = Some q"
  "read_parameters (d0\<lparr>params_attr := DictAt (fst (new_dict q h)), params_sanitized := Some True,
                        provenance := a\<rparr>)
     (snd (new_dict q h)) = Some q"
  by (simp_all add: read_parameters_def parameters_def new_dict_def)

text \<open>
  C8: \<^verbatim>\<open>copy\<close> constructs its result from \<^verbatim>\<open>dict(self.parameters, **overrides)\<close>, and
  an exception of the constructor is the exception of \<^verbatim>\<open>copy\<close>. For a class that
  supports slicing (\<^verbatim>\<open>_params_event_ndims\<close> returns) the result is the one of
  \<^verbatim>\<open>batch_slice\<close>, which records the instance that the original derives from; for a
  class whose \<^verbatim>\<open>_params_event_ndims\<close> raises \<^verbatim>\<open>NotImplementedError\<close> the result is the
  instance that the constructor returns, with no provenance added; any other exception
  of \<^verbatim>\<open>_params_event_ndims\<close> passes through. On both paths the parameters of the copy
  are that \<^verbatim>\<open>dict\<close>, and so the parameters of the original when there are no overrides.
\<close>

theorem copy_parameters:
  assumes "params_invariant self h"
  shows "\<exists>p. read_parameters self h = Some p
       \<and> (case params_event_ndims cls of
             Inr ndims \<Rightarrow>
               batch_slice cls self ndims overrides h = copy cls self overrides h
               \<and> (case constructor cls (dict_update p overrides) of
                     Inl c \<Rightarrow> copy cls self overrides h = Inl c
                   | Inr d0 \<Rightarrow>
                       (\<exists>d self1 h1. copy cls self overrides h = Inr (d, self1, h1)
                          \<and> ident d = ident d0
                          \<and> provenance d = Some (origin self)
                          \<and> read_parameters d h1 = Some (dict_update p overrides)
                          \<and> (overrides = [] \<longrightarrow> read_parameters d h1 = read_parameters self h)))
           | Inl c0 \<Rightarrow>
               if c0 \<noteq> NotImplementedError then copy cls self overrides h = Inl c0
               else
                 (case constructor cls (dict_update p overrides) of
                    Inl c \<Rightarrow> copy cls self overrides h = Inl c
                  | Inr d0 \<Rightarrow>
                      (\<exists>d self1 h1. copy cls self overrides h = Inr (d, self1, h1)
                         \<and> ident d = ident d0
                         \<and> provenance d = provenance d0
                         \<and> read_parameters d h1 = Some (dict_update p overrides)
                         \<and> (overrides = [] \<longrightarrow> read_parameters d h1 = read_parameters self h))))"
proof -
  from parameters_returns [OF assms] obtain r self1 h1
    where read: "parameters self h = Inr (r, self1, h1)" by blast
  let ?p = "cells h1 r"
  let ?q = "dict_update ?p overrides"
  have cell: "cells (snd (new_dict ?q h1)) (fst (new_dict ?q h1)) = ?q"
    by (simp add: new_dict_def)
  have rp: "read_parameters self h = Some ?p"
    by (simp add: read_parameters_def read)
  have slice: "batch_slice cls self ndims overrides h
      = (case constructor cls ?q of
           Inl c \<Rightarrow> Inl c
         | Inr d \<Rightarrow>
             Inr (d\<lparr>params_attr := DictAt (fst (new_dict ?q h1)), params_sanitized := Some True,
                    provenance := Some (origin self)\<rparr>,
                  self1, snd (new_dict ?q h1)))" for ndims
    by (simp add: batch_slice_def read case_prod_beta cell split: sum.splits)
  have fallback: "copy_by_slicing cls self overrides h = Inl NotImplementedError \<Longrightarrow>
      copy cls self overrides h
      = (case constructor cls ?q of
           Inl c \<Rightarrow> Inl c
         | Inr d \<Rightarrow>
             Inr (d\<lparr>params_attr := DictAt (fst (new_dict ?q h1)), params_sanitized := Some True\<rparr>,
                  self1, snd (new_dict ?q h1)))"
    by (simp add: copy_def read case_prod_beta cell split: sum.splits)
  have "case params_event_ndims cls of
             Inr ndims \<Rightarrow>
               batch_slice cls self ndims overrides h = copy cls self overrides h
               \<and> (case constructor cls ?q of
                     Inl c \<Rightarrow> copy cls self overrides h = Inl c
                   | Inr d0 \<Rightarrow>
                       (\<exists>d self1 h1. copy cls self overrides h = Inr (d, self1, h1)
                          \<and> ident d = ident d0
                          \<and> provenance d = Some (origin self)
                          \<and> read_parameters d h1 = Some ?q
                          \<and> (overrides = [] \<longrightarrow> read_parameters d h1 = read_parameters self h)))
           | Inl c0 \<Rightarrow>
               if c0 \<noteq> NotImplementedError then copy cls self overrides h = Inl c0
               else
                 (case constructor cls ?q of
                    Inl c \<Rightarrow> copy cls self overrides h = Inl c
                  | Inr d0 \<Rightarrow>
                      (\<exists>d self1 h1. copy cls self overrides h = Inr (d, self1, h1)
                         \<and> ident d = ident d0
                         \<and> provenance d = provenance d0
                         \<and> read_parameters d h1 = Some ?q
                         \<and> (overrides = [] \<longrightarrow> read_parameters d h1 = read_parameters self h)))"
  proof (cases "params_event_ndims cls")
    case (Inr ndims)
    have by_slicing: "copy_by_slicing cls self overrides h = batch_slice cls self ndims overrides h"
      by (simp add: copy_by_slicing_def Inr)
    show ?thesis
    proof (cases "constructor cls ?q")
      case (Inl c)
      have "batch_slice cls self ndims overrides h = Inl c"
        by (simp add: slice Inl)
      moreover have "copy cls self overrides h = Inl c"
      proof (cases "c = NotImplementedError")
        case True
        with by_slicing \<open>batch_slice cls self ndims overrides h = Inl c\<close>
        have "copy_by_slicing cls self overrides h = Inl NotImplementedError" by simp
        from fallback [OF this] show ?thesis by (simp add: Inl)
      next
        case False
        with by_slicing \<open>batch_slice cls self ndims overrides h = Inl c\<close>
        show ?thesis by (simp add: copy_def)
      qed
      ultimately show ?thesis
        by (simp add: \<open>params_event_ndims cls = Inr ndims\<close> Inl)
    next
      case (Inr d0)
      have "copy cls self overrides h = batch_slice cls self ndims overrides h"
        by (simp add: copy_def by_slicing slice Inr)
      then show ?thesis
        by (simp add: \<open>params_event_ndims cls = Inr ndims\<close> Inr slice rp read_parameters_built
              dict_update_Nil)
    qed
  next
    case (Inl c0)
    have by_slicing: "copy_by_slicing cls self overrides h = Inl c0"
      by (simp add: copy_by_slicing_def Inl)
    show ?thesis
    proof (cases "c0 = NotImplementedError")
      case True
      with by_slicing have "copy_by_slicing cls self overrides h = Inl NotImplementedError"
        by simp
      from fallback [OF this] show ?thesis
        by (simp add: Inl True rp read_parameters_built dict_update_Nil split: sum.splits)
    next
      case False
      with by_slicing show ?thesis
        by (simp add: Inl copy_def)
    qed
  qed
  with rp show ?thesis
    by blast
qed

text \<open>
  A copy of the example instance by a class that does not support slicing has the
  parameters of the original, with the overrides when there are some, and no
  provenance; a copy by a class that supports slicing has the same parameters and
  records the original.
\<close>

theorem copy_parameters_witness:
  "params_invariant example_instance example_store
   \<and> read_parameters example_instance example_store = Some [(''loc'', Val 1)]
   \<and> (case copy plain_class example_instance [] example_store of
         Inl c \<Rightarrow> False
       | Inr (d, self1, h1) \<Rightarrow>
           ident d = 8 \<and> provenance d = None
           \<and> read_parameters d h1 = Some [(''loc'', Val 1)])
   \<and> (case copy plain_class example_instance [(''loc'', Val 5), (''scale'', Val 2)] example_store of
         Inl c \<Rightarrow> False
       | Inr (d, self1, h1) \<Rightarrow>
           read_parameters d h1 = Some [(''loc'', Val 5), (''scale'', Val 2)])
   \<and> (case copy sliceable_class example_instance [] example_store of
         Inl c \<Rightarrow> False
       | Inr (d, self1, h1) \<Rightarrow>
           ident d = 8 \<and> provenance d = Some 7
           \<and> read_parameters d h1 = Some [(''loc'', Val 1)])
   \<and> (case copy sliceable_class example_instance [(''scale'', Val 2)] example_store of
         Inl c \<Rightarrow> False
       | Inr (d, self1, h1) \<Rightarrow>
           provenance d = Some 7
           \<and> read_parameters d h1 = Some [(''loc'', Val 1), (''scale'', Val 2)])"
proof -
  have inv: "params_invariant example_instance example_store"
    by (simp add: params_invariant_def example_store_def example_instance_def)
  have rp: "read_parameters example_instance example_store = Some [(''loc'', Val 1)]"
    by (simp add: read_parameters_def parameters_def new_dict_def startswith_dunder_def
          example_store_def example_instance_def)
  have org: "origin example_instance = 7"
    by (simp add: origin_def example_instance_def)
  have c1: "case copy plain_class example_instance [] example_store of
              Inl c \<Rightarrow> False
            | Inr (d, self1, h1) \<Rightarrow>
                ident d = 8 \<and> provenance d = None
                \<and> read_parameters d h1 = Some [(''loc'', Val 1)]"
    using copy_parameters [OF inv, of plain_class "[]"] rp
    by (auto simp: dict_update_def plain_class_def)
  have c2: "case copy plain_class example_instance [(''loc'', Val 5), (''scale'', Val 2)] example_store of
              Inl c \<Rightarrow> False
            | Inr (d, self1, h1) \<Rightarrow>
                read_parameters d h1 = Some [(''loc'', Val 5), (''scale'', Val 2)]"
    using copy_parameters [OF inv, of plain_class "[(''loc'', Val 5), (''scale'', Val 2)]"] rp
    by (auto simp: dict_update_def plain_class_def)
  have c3: "case copy sliceable_class example_instance [] example_store of
              Inl c \<Rightarrow> False
            | Inr (d, self1, h1) \<Rightarrow>
                ident d = 8 \<and> provenance d = Some 7
                \<and> read_parameters d h1 = Some [(''loc'', Val 1)]"
    using copy_parameters [OF inv, of sliceable_class "[]"] rp org
    by (auto simp: dict_update_def plain_class_def sliceable_class_def)
  have c4: "case copy sliceable_class example_instance [(''scale'', Val 2)] example_store of
              Inl c \<Rightarrow> False
            | Inr (d, self1, h1) \<Rightarrow>
                provenance d = Some 7
                \<and> read_parameters d h1 = Some [(''loc'', Val 1), (''scale'', Val 2)]"
    using copy_parameters [OF inv, of sliceable_class "[(''scale'', Val 2)]"] rp org
    by (auto simp: dict_update_def plain_class_def sliceable_class_def)
  from inv rp c1 c2 c3 c4 show ?thesis
    by blast
qed

section \<open>Window sizes\<close>

text \<open>
  C7: for every adaptation budget \<open>N\<close> the three window sizes satisfy
  \<open>first + slow * (1 + 2 + 4 + 8) + last = N\<close>; this holds in particular for the
  budgets 0, 1, 100, 524, 525 and 10000 of the test, and the budget 525 gives
  \<open>(75, 25, 75)\<close>.
\<close>

theorem get_window_sizes_total:
  "window_total (get_window_sizes N) = N
   \<and> (case get_window_sizes N of (f, s, l) \<Rightarrow> f + s * (1 + 2 + 4 + 8) + l = N)
   \<and> get_window_sizes 525 = (75, 25, 75)
   \<and> window_total (get_window_sizes 0) = 0 \<and> window_total (get_window_sizes 1) = 1
   \<and> window_total (get_window_sizes 100) = 100 \<and> window_total (get_window_sizes 524) = 524
   \<and> window_total (get_window_sizes 10000) = 10000"
  by (simp add: get_window_sizes_def window_total_def Let_def)

end
